theory Spec2Isabelle
  imports Main "HOL-Library.Sublist"
begin

section \<open>Python strings\<close>

text \<open>
  A Python 3 \<open>str\<close> is a sequence of code points. A \<^typ>\<open>string\<close> here is a list of
  code points below 256 (ASCII and the Latin-1 block), \<^term>\<open>of_char c\<close> being the code
  point of \<open>c\<close>; strings with a code point above 255 are outside this model. The
  character classes of \<open>str.isdigit\<close> and of \<open>str.strip\<close> come from the Unicode
  database of the interpreter and have members above 255 as well; \<open>isdigit_chr\<close> and
  \<open>isspace_chr\<close> are these classes on the code points that a \<^typ>\<open>char\<close> holds, and
  the properties are stated through them, not through a list of their members.
\<close>

definition isdigit_chr :: "char \<Rightarrow> bool" where
  \<comment> \<open>Numeric\_Type Decimal or Digit, below 256: \<open>0\<close>..\<open>9\<close>, and superscript two, three,
      one.\<close>
  "isdigit_chr c =
     (let n = (of_char c :: nat)
      in (48 \<le> n \<and> n \<le> 57) \<or> n = 178 \<or> n = 179 \<or> n = 185)"

definition isdigit :: "string \<Rightarrow> bool" where
  \<comment> \<open>\<open>s.isdigit()\<close>: at least one character, and all of them digits.\<close>
  "isdigit s = (s \<noteq> [] \<and> list_all isdigit_chr s)"

definition isspace_chr :: "char \<Rightarrow> bool" where
  \<comment> \<open>White space, below 256: TAB, LF, VT, FF, CR, FS, GS, RS, US, space, NEL, no-break
      space.\<close>
  "isspace_chr c =
     (let n = (of_char c :: nat)
      in (9 \<le> n \<and> n \<le> 13) \<or> (28 \<le> n \<and> n \<le> 32) \<or> n = 133 \<or> n = 160)"

definition strip :: "string \<Rightarrow> string" where
  \<comment> \<open>\<open>s.strip()\<close>\<close>
  "strip s = rev (dropWhile isspace_chr (rev (dropWhile isspace_chr s)))"

definition slice_to :: "string \<Rightarrow> int \<Rightarrow> string" where
  \<comment> \<open>\<open>s[:i]\<close>: a negative bound counts from the end.\<close>
  "slice_to s i =
     (if i < 0 then take (nat (int (length s) + i)) s else take (nat i) s)"

definition slice_from :: "string \<Rightarrow> int \<Rightarrow> string" where
  \<comment> \<open>\<open>s[i:]\<close>\<close>
  "slice_from s i =
     (if i < 0 then drop (nat (int (length s) + i)) s else drop (nat i) s)"

definition slice :: "string \<Rightarrow> int \<Rightarrow> int \<Rightarrow> string" where
  \<comment> \<open>\<open>s[i:j]\<close>\<close>
  "slice s i j = slice_from (slice_to s j) i"

fun rfind :: "string \<Rightarrow> char \<Rightarrow> int" where
  \<comment> \<open>\<open>s.rfind(c)\<close> for a one-character \<open>c\<close>: the highest index of \<open>c\<close>, or \<open>-1\<close>.\<close>
  "rfind [] c = - 1"
| "rfind (x # xs) c =
     (let r = rfind xs c
      in if 0 \<le> r then r + 1 else if x = c then 0 else - 1)"

fun split_nl :: "string \<Rightarrow> string list" where
  \<comment> \<open>\<open>s.split("\n")\<close>: never empty; \<open>"".split("\n") == [""]\<close>.\<close>
  "split_nl [] = [[]]"
| "split_nl (c # cs) =
     (if c = CHR 0x0A then [] # split_nl cs
      else (case split_nl cs of
              [] \<Rightarrow> [[c]]
            | l # ls \<Rightarrow> (c # l) # ls))"

definition digit_chr :: "nat \<Rightarrow> char" where
  "digit_chr n = char_of (48 + n)"

fun str_nat :: "nat \<Rightarrow> string" where
  "str_nat n = (if n < 10 then [digit_chr n] else str_nat (n div 10) @ [digit_chr (n mod 10)])"

declare str_nat.simps [simp del]

definition str_int :: "int \<Rightarrow> string" where
  \<comment> \<open>\<open>str(i)\<close> for an integer.\<close>
  "str_int i = (if i < 0 then CHR ''-'' # str_nat (nat (- i)) else str_nat (nat i))"

section \<open>Identifiers and references\<close>

definition is_valid :: "string \<Rightarrow> bool" where
  "is_valid key =
     (slice key 0 2 = ''MR'' \<and> isdigit (slice_from key 2) \<and> length key \<in> set [9, 10])"

datatype exn =
    FatalError string
  | NotFoundError string string
  | AuthenticationException
  | Exception string
  | HTTPError int

record ReferenceErrorInfo =
  message :: string
  ref_id :: string
  bare_id :: string
  updated :: string

definition new_ReferenceErrorInfo :: "string \<Rightarrow> string \<Rightarrow> ReferenceErrorInfo" where
  \<comment> \<open>\<open>ReferenceErrorInfo.__init__(message, id)\<close>\<close>
  "new_ReferenceErrorInfo msg i =
     \<lparr> message = msg, ref_id = i, bare_id = slice_to i (rfind i (CHR ''v'')),
       updated = ''0'' \<rparr>"

datatype reference = Reference string | ErrorInfo ReferenceErrorInfo

fun bibtex :: "reference \<Rightarrow> string" where
  "bibtex (Reference entry) = entry"
| "bibtex (ErrorInfo e) = ''@comment{'' @ ref_id e @ '': '' @ message e @ ''}''"

definition str_error :: "ReferenceErrorInfo \<Rightarrow> string" where
  \<comment> \<open>\<open>ReferenceErrorInfo.__str__\<close>\<close>
  "str_error e = ''Error: '' @ message e @ '' ('' @ ref_id e @ '')''"

fun isinstance_ReferenceErrorInfo :: "reference \<Rightarrow> bool" where
  "isinstance_ReferenceErrorInfo (ErrorInfo e) = True"
| "isinstance_ReferenceErrorInfo (Reference entry) = False"

section \<open>The request to the server\<close>

text \<open>
  The remote service is the environment. It answers a request with a status code and a
  body; the answer may depend on the key and on the requests made before it, which are
  also the record of what the program has asked.
\<close>

record response =
  status_code :: int
  resp_text :: string

type_synonym server = "string list \<Rightarrow> string \<Rightarrow> response"

definition correct_key :: "string \<Rightarrow> string \<Rightarrow> string" where
  "correct_key goodkey code = code"

definition not_found_marker :: string where
  "not_found_marker = ''No publications results for''"

fun scan_lines :: "string \<Rightarrow> bool \<Rightarrow> string \<Rightarrow> string list \<Rightarrow> exn + string" where
  \<comment> \<open>The \<open>for line in r.text.split("\n")\<close> loop, from the state \<open>(inCodeBlock, code)\<close>.\<close>
  "scan_lines key inCodeBlock code [] = Inr code"
| "scan_lines key inCodeBlock code (line # rest) =
     (if sublist not_found_marker line
      then Inl (NotFoundError ''No such publication'' key)
      else
        let inCodeBlock1 = (if strip line = ''</pre>'' then False else inCodeBlock);
            code1 = (if inCodeBlock1 then code @ [CHR 0x0A] @ line else code);
            inCodeBlock2 = (if strip line = ''<pre>'' then True else inCodeBlock1)
        in scan_lines key inCodeBlock2 code1 rest)"

definition parse_response :: "string \<Rightarrow> response \<Rightarrow> exn + string" where
  \<comment> \<open>\<open>mr_request\<close> after \<open>requests.get\<close> has returned \<open>r\<close>.\<close>
  "parse_response key r =
     (if status_code r = 401 then Inl AuthenticationException
      else if \<not> status_code r = 200
      then Inl (Exception (''Received HTTP status code '' @ str_int (status_code r)))
      else (case scan_lines key False [] (split_nl (resp_text r)) of
              Inl e \<Rightarrow> Inl e
            | Inr code \<Rightarrow> Inr (correct_key key code)))"

definition mr_request :: "server \<Rightarrow> string list \<Rightarrow> string \<Rightarrow> string list \<times> (exn + string)" where
  "mr_request srv log key = (log @ [key], parse_response key (srv log key))"

section \<open>The aggregator\<close>

type_synonym refdict = "string \<rightharpoonup> reference"

fun validate_keys ::
  "string list \<Rightarrow> string list \<times> refdict \<Rightarrow> string list \<times> refdict" where
  \<comment> \<open>The first loop of \<open>mr2bib_dict\<close>, from the state \<open>(keys, d)\<close>.\<close>
  "validate_keys [] (keys, d) = (keys, d)"
| "validate_keys (key # key_list) (keys, d) =
     (if is_valid key then validate_keys key_list (keys @ [key], d)
      else validate_keys key_list
             (keys, d(key \<mapsto> ErrorInfo (new_ReferenceErrorInfo
                                        ''Invalid Mathematical Reviews identifier'' key))))"

text \<open>
  The dictionary \<open>d\<close> of \<open>mr2bib_dict\<close> is state that both loops update in place. The
  model returns it together with the requests made and with the exception that ended the
  function, if any: \<open>(log, d, None)\<close> is \<open>return d\<close>, and \<open>(log, d, Some e)\<close> is the
  exception \<open>e\<close> leaving the function with the dictionary as it stood.
\<close>

fun fetch_keys ::
  "server \<Rightarrow> string list \<Rightarrow> string list \<Rightarrow> refdict \<Rightarrow>
     string list \<times> refdict \<times> exn option" where
  \<comment> \<open>The second loop of \<open>mr2bib_dict\<close>; only \<open>NotFoundError\<close> is caught.\<close>
  "fetch_keys srv log [] d = (log, d, None)"
| "fetch_keys srv log (key # keys) d =
     (case mr_request srv log key of
        (log', Inr entry) \<Rightarrow> fetch_keys srv log' keys (d(key \<mapsto> Reference entry))
      | (log', Inl (NotFoundError msg i)) \<Rightarrow>
          fetch_keys srv log' keys (d(key \<mapsto> ErrorInfo (new_ReferenceErrorInfo msg i)))
      | (log', Inl e) \<Rightarrow> (log', d, Some e))"

definition mr2bib_dict ::
  "server \<Rightarrow> string list \<Rightarrow> string list \<Rightarrow> string list \<times> refdict \<times> exn option" where
  "mr2bib_dict srv log key_list =
     (case validate_keys key_list ([], Map.empty) of
        (keys, d) \<Rightarrow>
          if length keys = 0 then (log, d, None) else fetch_keys srv log keys d)"

definition mr2bib ::
  "server \<Rightarrow> string list \<Rightarrow> string list \<Rightarrow> string list \<times> (exn + reference list)" where
  "mr2bib srv log id_list =
     (case mr2bib_dict srv log id_list of
        (log', d, Some e) \<Rightarrow> (log', Inl e)
      | (log', d, None) \<Rightarrow>
          (log', Inr (map (\<lambda>i. case d i of
                                Some b \<Rightarrow> b
                              | None \<Rightarrow> ErrorInfo (new_ReferenceErrorInfo ''Not found'' i))
                          id_list)))"

section \<open>The command line interface\<close>

record args =
  ids :: "string list"
  comments :: bool
  quiet :: bool
  verbose :: bool

record cli =
  cli_args :: args
  cli_output :: "string list"
  messages :: "string list"
  error_count :: int
  code :: int

definition new_Cli :: "args \<Rightarrow> string list \<Rightarrow> cli" where
  \<comment> \<open>\<open>Cli.__init__\<close> on the parsed arguments and the lines of standard input.\<close>
  "new_Cli parsed stdin =
     (let a1 = (if length (ids parsed) = 0 then parsed\<lparr>ids := map strip stdin\<rparr> else parsed);
          a2 = (if comments a1 \<and> \<not> verbose a1 then a1\<lparr>quiet := True\<rparr> else a1)
      in \<lparr> cli_args = a2, cli_output = [], messages = [], error_count = 0, code = 0 \<rparr>)"

fun create_output :: "cli \<Rightarrow> reference list \<Rightarrow> cli" where
  \<comment> \<open>The \<open>isinstance\<close> test of the loop is the case distinction on the result.\<close>
  "create_output c [] = c"
| "create_output c (ErrorInfo e # bib) =
     (let c1 = c\<lparr>error_count := error_count c + 1\<rparr>;
          c2 = (if comments (cli_args c1)
                then c1\<lparr>cli_output := cli_output c1 @ [bibtex (ErrorInfo e)]\<rparr> else c1);
          c3 = (if \<not> quiet (cli_args c2)
                then c2\<lparr>messages := messages c2 @ [str_error e]\<rparr> else c2)
      in create_output c3 bib)"
| "create_output c (Reference entry # bib) =
     create_output (c\<lparr>cli_output := cli_output c @ [bibtex (Reference entry)]\<rparr>) bib"

definition tally_errors :: "cli \<Rightarrow> reference list \<Rightarrow> cli \<times> int" where
  "tally_errors c bib =
     (if error_count c = int (length (ids (cli_args c)))
      then (c\<lparr>messages := messages c @ [''No successful matches'']\<rparr>, 2)
      else if error_count c > 0
      then (c\<lparr>messages := messages c @
                 [str_int (int (length bib) - error_count c) @ '' of '' @
                  str_int (int (length bib)) @ '' matched succesfully'']\<rparr>, 1)
      else (c, 0))"

definition run :: "server \<Rightarrow> cli \<Rightarrow> string list \<times> (exn + cli)" where
  \<comment> \<open>\<open>Cli.run\<close>; the requests start from an empty record.\<close>
  "run srv c =
     (case mr2bib srv [] (ids (cli_args c)) of
        (log, Inl (HTTPError n)) \<Rightarrow>
          (log, Inl (FatalError (''HTTP Connection Error: '' @ str_int n)))
      | (log, Inl e) \<Rightarrow> (log, Inl e)
      | (log, Inr bib) \<Rightarrow>
          (let c1 = create_output c bib;
               (c2, n) = tally_errors c1 bib
           in (log, Inr (c2\<lparr>code := n\<rparr>))))"

fun join :: "string \<Rightarrow> string list \<Rightarrow> string" where
  \<comment> \<open>\<open>sep.join(xs)\<close>\<close>
  "join sep [] = []"
| "join sep [x] = x"
| "join sep (x # y # ys) = x @ sep @ join sep (y # ys)"

text \<open>
  What the process leaves behind: the requests it made, and what it wrote. A write to
  standard output is either text or, in the fallback of \<open>print_output\<close>, the UTF-8
  encoding of a string.
\<close>

datatype written = Text string | Utf8 string

record process =
  requests :: "string list"
  stdout :: "written list"
  stderr :: "string list"

record os =
  server :: server
  stdin :: "string list"
  linesep :: string
  encodable :: "string \<Rightarrow> bool"

definition print_output :: "os \<Rightarrow> cli \<Rightarrow> written list \<times> cli" where
  \<comment> \<open>\<open>encodable\<close> says whether \<open>print\<close> succeeds or raises \<open>UnicodeEncodeError\<close>.\<close>
  "print_output sys c =
     (if cli_output c = [] then ([], c)
      else
        let output_string = join (linesep sys) (cli_output c)
        in if encodable sys output_string then ([Text (output_string @ [CHR 0x0A])], c)
           else ([Utf8 (output_string @ linesep sys)],
                 if verbose (cli_args c)
                 then c\<lparr>messages := messages c @
                            [''Could not use system encoding; using utf-8'']\<rparr>
                 else c))"

definition print_messages :: "os \<Rightarrow> cli \<Rightarrow> string list \<times> cli" where
  "print_messages sys c =
     (if messages c \<noteq> [] then
        let c1 = c\<lparr>messages := messages c @ [[]]\<rparr>
        in ([join (linesep sys) (messages c1)], c1)
      else ([], c))"

definition main :: "os \<Rightarrow> args \<Rightarrow> process \<times> (exn + int)" where
  \<comment> \<open>\<open>main\<close> on the parsed arguments; only \<open>FatalError\<close> is caught.\<close>
  "main sys parsed =
     (let c = new_Cli parsed (stdin sys)
      in case run (server sys) c of
           (log, Inl (FatalError msg)) \<Rightarrow>
             (\<lparr> requests = log, stdout = [], stderr = [msg @ linesep sys] \<rparr>, Inr 2)
         | (log, Inl e) \<Rightarrow> (\<lparr> requests = log, stdout = [], stderr = [] \<rparr>, Inl e)
         | (log, Inr c1) \<Rightarrow>
             (let (out, c2) = print_output sys c1;
                  (err, c3) = print_messages sys c2
              in (\<lparr> requests = log, stdout = out, stderr = err \<rparr>, Inr (code c3))))"

definition exit_status :: "exn + int \<Rightarrow> int" where
  \<comment> \<open>\<open>sys.exit(main())\<close>: an exception that leaves \<open>main\<close> ends the interpreter with
      a traceback on standard error and exit status 1.\<close>
  "exit_status r = (case r of Inr n \<Rightarrow> n | Inl e \<Rightarrow> 1)"

section \<open>Notions used to state the properties\<close>

text \<open>
  The error descriptor stored for an invalid key, and what the second loop of
  \<open>mr2bib_dict\<close> stores for the outcome of one request (\<open>None\<close>: the exception is not
  caught there).
\<close>

definition invalid_info :: "string \<Rightarrow> reference" where
  "invalid_info k = ErrorInfo (new_ReferenceErrorInfo ''Invalid Mathematical Reviews identifier'' k)"

definition stored :: "exn + string \<Rightarrow> reference option" where
  "stored r = (case r of
      Inr entry \<Rightarrow> Some (Reference entry)
    | Inl (NotFoundError msg i) \<Rightarrow> Some (ErrorInfo (new_ReferenceErrorInfo msg i))
    | Inl e \<Rightarrow> None)"

text \<open>
  The outcome of the \<open>n\<close>-th request of a run whose requests were \<open>reqs\<close>: the server
  had seen the \<open>n\<close> requests before it.
\<close>

definition fetched :: "server \<Rightarrow> string list \<Rightarrow> nat \<Rightarrow> exn + string" where
  "fetched srv reqs n = parse_response (reqs ! n) (srv (take n reqs) (reqs ! n))"

definition has_not_found_marker :: "response \<Rightarrow> bool" where
  "has_not_found_marker r = list_ex (sublist not_found_marker) (split_nl (resp_text r))"

text \<open>
  Marker lines, as the loop of \<open>mr_request\<close> tests them. Line \<open>i\<close> is in a block when
  some line before it is an opening marker and no line after that one, up to and with
  line \<open>i\<close>, is a closing marker; \<open>block_open ls n\<close> is the same for the lines before
  line \<open>n\<close>. \<open>extracted sel ls\<close> joins the selected lines, each after a line break.
\<close>

definition is_open_marker :: "string \<Rightarrow> bool" where
  "is_open_marker l = (strip l = ''<pre>'')"

definition is_close_marker :: "string \<Rightarrow> bool" where
  "is_close_marker l = (strip l = ''</pre>'')"

definition block_open :: "string list \<Rightarrow> nat \<Rightarrow> bool" where
  "block_open ls n =
     list_ex (\<lambda>j. is_open_marker (ls ! j) \<and>
                  list_all (\<lambda>m. \<not> is_close_marker (ls ! m)) [Suc j..<n]) [0..<n]"

definition in_block :: "string list \<Rightarrow> nat \<Rightarrow> bool" where
  "in_block ls i =
     list_ex (\<lambda>j. is_open_marker (ls ! j) \<and>
                  list_all (\<lambda>m. \<not> is_close_marker (ls ! m)) [Suc j..<Suc i]) [0..<i]"

definition extracted :: "(string list \<Rightarrow> nat \<Rightarrow> bool) \<Rightarrow> string list \<Rightarrow> string" where
  "extracted sel ls = concat (map (\<lambda>i. CHR 0x0A # ls ! i) (filter (sel ls) [0..<length ls]))"

text \<open>
  An entry of the result list belongs to the identifier \<open>k\<close>: an error descriptor
  carries \<open>k\<close> itself; a record holds what was extracted from the answer to a request
  for \<open>k\<close>.
\<close>

fun entry_for :: "server \<Rightarrow> string list \<Rightarrow> string \<Rightarrow> reference \<Rightarrow> bool" where
  "entry_for srv reqs k (ErrorInfo e) =
     (e = new_ReferenceErrorInfo
            (if is_valid k then ''No such publication''
             else ''Invalid Mathematical Reviews identifier'') k)"
| "entry_for srv reqs k (Reference entry) =
     (is_valid k \<and>
      list_ex (\<lambda>n. reqs ! n = k \<and> fetched srv reqs n = Inr entry) [0..<length reqs])"

text \<open>A server for the examples: one known publication, one unknown, and failures.\<close>

definition example_server :: server where
  "example_server h k =
     (if k = ''MR1996800''
      then \<lparr> status_code = 200,
             resp_text = ''<html>\<newline><pre>\<newline>@article {MR1996800,\<newline>}\<newline></pre>\<newline></html>'' \<rparr>
      else if k = ''MR0000000''
      then \<lparr> status_code = 200, resp_text = ''No publications results for MR0000000'' \<rparr>
      else \<lparr> status_code = 500, resp_text = [] \<rparr>)"

definition unclosed_server :: server where
  "unclosed_server h k = \<lparr> status_code = 200, resp_text = ''<pre>\<newline>@book {MR1996800}'' \<rparr>"

definition example_os :: os where
  "example_os = \<lparr> server = example_server, stdin = [], linesep = [CHR 0x0A],
                  encodable = (\<lambda>s. True) \<rparr>"

definition example_args :: "string list \<Rightarrow> args" where
  "example_args id_list = \<lparr> ids = id_list, comments = False, quiet = False, verbose = False \<rparr>"

section \<open>The specification's wording\<close>

text \<open>
  The definitions of this section follow the words of the specification, not the code;
  the properties below compare them with the code.
\<close>

definition decimal_digit :: "char \<Rightarrow> bool" where
  "decimal_digit c = (c \<in> set ''0123456789'')"

definition valid_as_specified :: "string \<Rightarrow> bool" where
  \<comment> \<open>Starts with \<open>MR\<close>, the remainder is all decimal digits, 9 or 10 characters long.\<close>
  "valid_as_specified s =
     (take 2 s = ''MR'' \<and> list_all decimal_digit (drop 2 s) \<and> (length s = 9 \<or> length s = 10))"

definition between_markers :: "string list \<Rightarrow> nat \<Rightarrow> bool" where
  \<comment> \<open>Line \<open>i\<close> lies strictly between a \<open><pre>\<close> marker line and the \<open></pre>\<close> marker
      line that closes it.\<close>
  "between_markers ls i =
     (in_block ls i \<and> list_ex (\<lambda>k. is_close_marker (ls ! k)) [Suc i..<length ls])"

section \<open>Strings: slices, digits, \<open>rfind\<close>\<close>

lemma slice_0_2: "slice key 0 2 = take 2 key"
  by (simp add: slice_def slice_from_def slice_to_def)

lemma slice_from_2: "slice_from key 2 = drop 2 key"
  by (simp add: slice_from_def)

lemma slice_to_minus_one: "slice_to s (- 1) = butlast s"
  by (simp add: slice_to_def butlast_conv_take nat_diff_distrib')

lemma slice_to_length: "slice_to (pre @ post) (int (length pre)) = pre"
  by (simp add: slice_to_def)

lemma decimal_digit_isdigit: "decimal_digit c \<Longrightarrow> isdigit_chr c"
  unfolding decimal_digit_def isdigit_chr_def Let_def by auto

lemma rfind_absent: "c \<notin> set s \<Longrightarrow> rfind s c = - 1"
  by (induction s) (auto simp: Let_def)

lemma rfind_present:
  "c \<in> set s \<Longrightarrow>
     \<exists>pre post. s = pre @ c # post \<and> c \<notin> set post \<and> rfind s c = int (length pre)"
proof (induction s)
  case Nil
  then show ?case by simp
next
  case (Cons x xs)
  show ?case
  proof (cases "c \<in> set xs")
    case True
    with Cons.IH obtain pre post where
      p: "xs = pre @ c # post" "c \<notin> set post" "rfind xs c = int (length pre)" by blast
    then have "x # xs = (x # pre) @ c # post \<and> c \<notin> set post \<and>
        rfind (x # xs) c = int (length (x # pre))"
      by (simp add: Let_def)
    then show ?thesis by blast
  next
    case False
    with Cons.prems have "x = c" by simp
    with False have "x # xs = [] @ c # xs \<and> c \<notin> set xs \<and>
        rfind (x # xs) c = int (length ([]::string))"
      by (simp add: Let_def rfind_absent)
    then show ?thesis by blast
  qed
qed

section \<open>The validator\<close>

lemma is_valid_unfold:
  "is_valid s \<longleftrightarrow>
     take 2 s = ''MR'' \<and> list_all isdigit_chr (drop 2 s) \<and> (length s = 9 \<or> length s = 10)"
  by (auto simp: is_valid_def slice_0_2 slice_from_2 isdigit_def)

text \<open>
  Claim C6, as the code has it. \<open>is_valid\<close> holds exactly when the first two characters
  are \<open>MR\<close>, the length is 9 or 10, and every remaining character is a digit for
  \<open>str.isdigit\<close>. Every decimal digit \<open>0\<close>..\<open>9\<close> is such a digit, and so are characters
  that are not decimal digits, superscript two (U+00B2) for one. \<open>MR1996800\<close> and
  \<open>MR19968000\<close> are valid; \<open>XR1996800\<close>, \<open>MR19A6800\<close>, \<open>MR199680\<close> and \<open>MR199680000\<close>
  are not.
\<close>

theorem is_valid_characterisation:
  "(is_valid s \<longleftrightarrow>
      take 2 s = ''MR'' \<and> (\<forall>c\<in>set (drop 2 s). isdigit_chr c) \<and>
      (length s = 9 \<or> length s = 10)) \<and>
   (\<forall>c. decimal_digit c \<longrightarrow> isdigit_chr c) \<and>
   isdigit_chr (CHR 0xB2) \<and> \<not> decimal_digit (CHR 0xB2) \<and>
   is_valid ''MR1996800'' \<and> is_valid ''MR19968000'' \<and>
   \<not> is_valid ''XR1996800'' \<and> \<not> is_valid ''MR19A6800'' \<and>
   \<not> is_valid ''MR199680'' \<and> \<not> is_valid ''MR199680000''"
proof -
  have "is_valid s \<longleftrightarrow>
      take 2 s = ''MR'' \<and> (\<forall>c\<in>set (drop 2 s). isdigit_chr c) \<and>
      (length s = 9 \<or> length s = 10)"
    unfolding is_valid_unfold list_all_iff ..
  moreover have "\<forall>c. decimal_digit c \<longrightarrow> isdigit_chr c"
    using decimal_digit_isdigit by blast
  moreover have "isdigit_chr (CHR 0xB2)" by code_simp
  moreover have "\<not> decimal_digit (CHR 0xB2)" by code_simp
  moreover have "is_valid ''MR1996800''" by code_simp
  moreover have "is_valid ''MR19968000''" by code_simp
  moreover have "\<not> is_valid ''XR1996800''" by code_simp
  moreover have "\<not> is_valid ''MR19A6800''" by code_simp
  moreover have "\<not> is_valid ''MR199680''" by code_simp
  moreover have "\<not> is_valid ''MR199680000''" by code_simp
  ultimately show ?thesis by blast
qed

theorem is_valid_characterisation_witness:
  "take 2 ''MR19968000'' = ''MR'' \<and> list_all isdigit_chr (drop 2 ''MR19968000'') \<and>
   list_all decimal_digit (drop 2 ''MR19968000'') \<and>
   length ''MR19968000'' = 10 \<and> is_valid ''MR19968000''"
proof -
  have d: "list_all decimal_digit (drop 2 ''MR19968000'')" by code_simp
  have i: "list_all isdigit_chr (drop 2 ''MR19968000'')" by code_simp
  from is_valid_characterisation [of "''MR19968000''"] d i show ?thesis
    by (simp add: list_all_iff)
qed

text \<open>
  The claim as the specification words it (every remaining character a decimal digit)
  fails on an identifier that ends in superscript two.
\<close>

theorem is_valid_superscript_counterexample:
  "is_valid (''MR199680'' @ [CHR 0xB2]) \<and>
   \<not> valid_as_specified (''MR199680'' @ [CHR 0xB2])"
  by code_simp

section \<open>Error descriptors\<close>

text \<open>
  Claim C10. For an identifier without the character \<open>v\<close>, the bare form is the
  identifier without its last character (\<open>rfind\<close> returns \<open>-1\<close>, and \<open>id[:-1]\<close> drops
  the last character); for an identifier with a \<open>v\<close>, it is the part before the last
  \<open>v\<close>.
\<close>

theorem bare_id_without_v:
  "(CHR ''v'' \<notin> set i \<longrightarrow> bare_id (new_ReferenceErrorInfo msg i) = butlast i) \<and>
   (CHR ''v'' \<in> set i \<longrightarrow>
      (\<exists>pre post. i = pre @ CHR ''v'' # post \<and> CHR ''v'' \<notin> set post \<and>
         bare_id (new_ReferenceErrorInfo msg i) = pre))"
proof (intro conjI impI)
  assume "CHR ''v'' \<notin> set i"
  then show "bare_id (new_ReferenceErrorInfo msg i) = butlast i"
    by (simp add: new_ReferenceErrorInfo_def rfind_absent slice_to_minus_one)
next
  assume "CHR ''v'' \<in> set i"
  from rfind_present [OF this] obtain pre post where
    p: "i = pre @ CHR ''v'' # post" "CHR ''v'' \<notin> set post"
       "rfind i (CHR ''v'') = int (length pre)"
    by blast
  have "bare_id (new_ReferenceErrorInfo msg i) = pre"
    unfolding new_ReferenceErrorInfo_def
    using p(3) slice_to_length [of pre "CHR ''v'' # post"] p(1)
    by simp
  with p show "\<exists>pre post. i = pre @ CHR ''v'' # post \<and> CHR ''v'' \<notin> set post \<and>
           bare_id (new_ReferenceErrorInfo msg i) = pre" by blast
qed

theorem bare_id_without_v_witness:
  "CHR ''v'' \<notin> set ''MR1996800'' \<and>
   bare_id (new_ReferenceErrorInfo ''Not found'' ''MR1996800'') = ''MR199680'' \<and>
   CHR ''v'' \<in> set ''1207.0580v2'' \<and>
   (\<exists>pre post. ''1207.0580v2'' = pre @ CHR ''v'' # post \<and> CHR ''v'' \<notin> set post \<and>
      bare_id (new_ReferenceErrorInfo ''Not found'' ''1207.0580v2'') = pre)"
  using bare_id_without_v [of "''MR1996800''" "''Not found''"]
    bare_id_without_v [of "''1207.0580v2''" "''Not found''"]
  by simp

section \<open>The aggregator\<close>

lemma validate_keys_eq:
  "validate_keys key_list (keys, d) =
     (keys @ filter is_valid key_list,
      (\<lambda>k. if k \<in> set key_list \<and> \<not> is_valid k then Some (invalid_info k) else d k))"
proof (induction key_list arbitrary: keys d)
  case Nil
  then show ?case by simp
next
  case (Cons key key_list)
  show ?case
    by (auto simp: Cons.IH invalid_info_def fun_eq_iff)
qed

lemma parse_response_cases:
  "parse_response key r = Inl AuthenticationException \<and> status_code r = 401 \<or>
   parse_response key r = Inl (Exception (''Received HTTP status code '' @ str_int (status_code r)))
     \<and> status_code r \<noteq> 401 \<and> status_code r \<noteq> 200 \<or>
   parse_response key r = Inl (NotFoundError ''No such publication'' key) \<and> status_code r = 200 \<or>
   (\<exists>entry. parse_response key r = Inr entry) \<and> status_code r = 200"
proof -
  have "scan_lines key b c ls = Inl e \<Longrightarrow> e = NotFoundError ''No such publication'' key" for b c ls e
    by (induction ls arbitrary: b c) (auto simp: Let_def split: if_splits)
  then show ?thesis
    by (auto simp: parse_response_def split: sum.splits)
qed

lemma fetch_keys_Cons_Some:
  "stored (parse_response key (srv log key)) = Some b \<Longrightarrow>
     fetch_keys srv log (key # keys) d = fetch_keys srv (log @ [key]) keys (d(key \<mapsto> b))"
  by (auto simp: mr_request_def stored_def split: sum.splits exn.splits)

lemma fetch_keys_Cons_None:
  "stored (parse_response key (srv log key)) = None \<Longrightarrow>
     \<exists>e. parse_response key (srv log key) = Inl e \<and>
         fetch_keys srv log (key # keys) d = (log @ [key], d, Some e)"
  by (auto simp: mr_request_def stored_def split: sum.splits exn.splits)

lemma fetch_keys_run:
  "fetch_keys srv log keys d = (log', d', x) \<Longrightarrow>
     \<exists>m\<le>length keys. log' = log @ take m keys \<and>
       (\<forall>j<m. stored (parse_response (keys ! j) (srv (log @ take j keys) (keys ! j))) = None
          \<longrightarrow> Suc j = m \<and> x \<noteq> None) \<and>
       (\<forall>e. x = Some e \<longrightarrow>
          0 < m \<and>
          parse_response (keys ! (m - 1)) (srv (log @ take (m - 1) keys) (keys ! (m - 1))) = Inl e \<and>
          stored (Inl e :: exn + string) = None) \<and>
       (x = None \<longrightarrow> m = length keys) \<and>
       (\<forall>k. k \<notin> set (take m keys) \<longrightarrow> d' k = d k) \<and>
       (\<forall>j<m. keys ! j \<notin> set (drop (Suc j) (take m keys)) \<longrightarrow>
          stored (parse_response (keys ! j) (srv (log @ take j keys) (keys ! j))) \<noteq> None \<longrightarrow>
          d' (keys ! j) =
            stored (parse_response (keys ! j) (srv (log @ take j keys) (keys ! j))))"
proof (induction keys arbitrary: log d)
  case Nil
  then show ?case by simp
next
  case (Cons key keys)
  let ?r = "parse_response key (srv log key)"
  let ?P = "\<lambda>ks lg j. parse_response (ks ! j) (srv (lg @ take j ks) (ks ! j))"
  show ?case
  proof (cases "stored ?r")
    case None
    from fetch_keys_Cons_None [of key srv log keys d] None obtain e where e: "?r = Inl e"
      and f: "fetch_keys srv log (key # keys) d = (log @ [key], d, Some e)" by blast
    from f Cons.prems have eq: "log' = log @ [key]" "d' = d" "x = Some e" by simp_all
    have 1: "(1::nat) \<le> length (key # keys)" by simp
    have 2: "log' = log @ take 1 (key # keys)" using eq by simp
    have 3: "\<forall>j<1. stored (?P (key # keys) log j) = None \<longrightarrow> Suc j = 1 \<and> x \<noteq> None"
      using eq by simp
    have 4: "\<forall>e'. x = Some e' \<longrightarrow> 0 < (1::nat) \<and> ?P (key # keys) log (1 - 1) = Inl e' \<and>
        stored (Inl e' :: exn + string) = None"
      using eq e None by simp
    have 5: "x = None \<longrightarrow> 1 = length (key # keys)" using eq by simp
    have 6: "\<forall>k. k \<notin> set (take 1 (key # keys)) \<longrightarrow> d' k = d k" using eq by simp
    have 7: "\<forall>j<1. (key # keys) ! j \<notin> set (drop (Suc j) (take 1 (key # keys))) \<longrightarrow>
        stored (?P (key # keys) log j) \<noteq> None \<longrightarrow>
        d' ((key # keys) ! j) = stored (?P (key # keys) log j)"
      using None by simp
    from 1 2 3 4 5 6 7 show ?thesis by (intro exI [of _ 1] conjI)
  next
    case (Some b)
    then have "fetch_keys srv log (key # keys) d =
        fetch_keys srv (log @ [key]) keys (d(key \<mapsto> b))"
      by (rule fetch_keys_Cons_Some)
    with Cons.prems have f: "fetch_keys srv (log @ [key]) keys (d(key \<mapsto> b)) = (log', d', x)"
      by simp
    from Cons.IH [OF f] obtain m where
      m: "m \<le> length keys" "log' = (log @ [key]) @ take m keys"
         "\<forall>j<m. stored (?P keys (log @ [key]) j) = None \<longrightarrow> Suc j = m \<and> x \<noteq> None"
         "\<forall>e. x = Some e \<longrightarrow> 0 < m \<and> ?P keys (log @ [key]) (m - 1) = Inl e \<and>
            stored (Inl e :: exn + string) = None"
         "x = None \<longrightarrow> m = length keys"
         "\<forall>k. k \<notin> set (take m keys) \<longrightarrow> d' k = (d(key \<mapsto> b)) k"
         "\<forall>j<m. keys ! j \<notin> set (drop (Suc j) (take m keys)) \<longrightarrow>
            stored (?P keys (log @ [key]) j) \<noteq> None \<longrightarrow>
            d' (keys ! j) = stored (?P keys (log @ [key]) j)"
      by blast
    have sh: "?P (key # keys) log (Suc j) = ?P keys (log @ [key]) j" for j
      by simp
    have 1: "Suc m \<le> length (key # keys)" using m(1) by simp
    have 2: "log' = log @ take (Suc m) (key # keys)" using m(2) by simp
    have 3: "\<forall>j<Suc m. stored (?P (key # keys) log j) = None \<longrightarrow> Suc j = Suc m \<and> x \<noteq> None"
    proof (intro allI impI)
      fix j assume j: "j < Suc m" and n: "stored (?P (key # keys) log j) = None"
      show "Suc j = Suc m \<and> x \<noteq> None"
      proof (cases j)
        case 0
        with n Some show ?thesis by simp
      next
        case (Suc j')
        with j n m(3) show ?thesis by simp
      qed
    qed
    have 4: "\<forall>e. x = Some e \<longrightarrow> 0 < Suc m \<and> ?P (key # keys) log (Suc m - 1) = Inl e \<and>
        stored (Inl e :: exn + string) = None"
    proof (intro allI impI)
      fix e assume "x = Some e"
      with m(4) have *: "0 < m" "?P keys (log @ [key]) (m - 1) = Inl e"
        "stored (Inl e :: exn + string) = None" by auto
      then obtain m' where m': "m = Suc m'" by (cases m) auto
      with * show "0 < Suc m \<and> ?P (key # keys) log (Suc m - 1) = Inl e \<and>
        stored (Inl e :: exn + string) = None" by simp
    qed
    have 5: "x = None \<longrightarrow> Suc m = length (key # keys)" using m(5) by simp
    have 6: "\<forall>k. k \<notin> set (take (Suc m) (key # keys)) \<longrightarrow> d' k = d k"
      using m(6) by simp
    have 7: "\<forall>j<Suc m. (key # keys) ! j \<notin> set (drop (Suc j) (take (Suc m) (key # keys))) \<longrightarrow>
        stored (?P (key # keys) log j) \<noteq> None \<longrightarrow>
        d' ((key # keys) ! j) = stored (?P (key # keys) log j)"
    proof (intro allI impI)
      fix j assume j: "j < Suc m"
        and l: "(key # keys) ! j \<notin> set (drop (Suc j) (take (Suc m) (key # keys)))"
        and s: "stored (?P (key # keys) log j) \<noteq> None"
      show "d' ((key # keys) ! j) = stored (?P (key # keys) log j)"
      proof (cases j)
        case 0
        with l have "key \<notin> set (take m keys)" by simp
        with m(6) have "d' key = (d(key \<mapsto> b)) key" by blast
        with 0 Some show ?thesis by simp
      next
        case (Suc j')
        with j l s m(7) show ?thesis by simp
      qed
    qed
    from 1 2 3 4 5 6 7 show ?thesis by (intro exI [of _ "Suc m"] conjI)
  qed
qed


lemma scan_lines_marker:
  "list_ex (sublist not_found_marker) ls \<Longrightarrow>
     scan_lines key b c ls = Inl (NotFoundError ''No such publication'' key)"
  by (induction ls arbitrary: b c) (auto simp: Let_def)

lemma parse_response_not_found:
  "status_code r = 200 \<Longrightarrow> has_not_found_marker r \<Longrightarrow>
     parse_response key r = Inl (NotFoundError ''No such publication'' key)"
  by (simp add: parse_response_def has_not_found_marker_def scan_lines_marker)

lemma mr2bib_dict_eq:
  "mr2bib_dict srv log id_list =
     fetch_keys srv log (filter is_valid id_list)
       (\<lambda>k. if k \<in> set id_list \<and> \<not> is_valid k then Some (invalid_info k) else None)"
  by (simp add: mr2bib_dict_def validate_keys_eq)

lemma mr2bib_of_dict:
  "mr2bib_dict srv log id_list = (reqs, d, x) \<Longrightarrow>
     mr2bib srv log id_list =
       (reqs, case x of
                Some e \<Rightarrow> Inl e
              | None \<Rightarrow> Inr (map (\<lambda>i. case d i of Some b \<Rightarrow> b
                     | None \<Rightarrow> ErrorInfo (new_ReferenceErrorInfo ''Not found'' i)) id_list))"
  by (simp add: mr2bib_def split: option.splits)

lemma mr2bib_dict_run:
  assumes "mr2bib_dict srv [] id_list = (reqs, d, x)"
  shows "reqs = take (length reqs) (filter is_valid id_list)"
    and "\<forall>j<length reqs. stored (fetched srv reqs j) = None \<longrightarrow>
           Suc j = length reqs \<and> x \<noteq> None"
    and "\<forall>e. x = Some e \<longrightarrow>
           0 < length reqs \<and> fetched srv reqs (length reqs - 1) = Inl e \<and>
           stored (Inl e :: exn + string) = None"
    and "x = None \<longrightarrow> reqs = filter is_valid id_list"
    and "\<forall>k. k \<notin> set reqs \<longrightarrow>
           d k = (if k \<in> set id_list \<and> \<not> is_valid k then Some (invalid_info k) else None)"
    and "\<forall>j<length reqs. reqs ! j \<notin> set (drop (Suc j) reqs) \<longrightarrow>
           stored (fetched srv reqs j) \<noteq> None \<longrightarrow>
           d (reqs ! j) = stored (fetched srv reqs j)"
proof -
  let ?V = "filter is_valid id_list"
  let ?d = "\<lambda>k. if k \<in> set id_list \<and> \<not> is_valid k then Some (invalid_info k) else None"
  let ?P = "\<lambda>j. parse_response (?V ! j) (srv ([] @ take j ?V) (?V ! j))"
  have f: "fetch_keys srv [] ?V ?d = (reqs, d, x)"
    using assms by (simp add: mr2bib_dict_eq)
  from fetch_keys_run [OF f] obtain m where
    m: "m \<le> length ?V" "reqs = [] @ take m ?V"
       "\<forall>j<m. stored (?P j) = None \<longrightarrow> Suc j = m \<and> x \<noteq> None"
       "\<forall>e. x = Some e \<longrightarrow> 0 < m \<and> ?P (m - 1) = Inl e \<and> stored (Inl e :: exn + string) = None"
       "x = None \<longrightarrow> m = length ?V"
       "\<forall>k. k \<notin> set (take m ?V) \<longrightarrow> d k = ?d k"
       "\<forall>j<m. ?V ! j \<notin> set (drop (Suc j) (take m ?V)) \<longrightarrow>
          stored (?P j) \<noteq> None \<longrightarrow> d (?V ! j) = stored (?P j)"
    by blast
  have reqs: "reqs = take m ?V" using m(2) by simp
  have len: "length reqs = m" using m(1) reqs by simp
  have nth: "reqs ! j = ?V ! j" if "j < m" for j
    using that by (simp add: reqs)
  have tk: "take j reqs = take j ?V" if "j < m" for j
    using that by (simp add: reqs min_def)
  have fe: "fetched srv reqs j = ?P j" if "j < m" for j
    using nth [OF that] tk [OF that] by (simp add: fetched_def)
  have 3: "\<forall>j<m. stored (fetched srv reqs j) = None \<longrightarrow> Suc j = m \<and> x \<noteq> None"
    using m(3) fe by simp
  have 4: "\<forall>e. x = Some e \<longrightarrow> 0 < m \<and> fetched srv reqs (m - 1) = Inl e \<and>
        stored (Inl e :: exn + string) = None"
  proof (intro allI impI)
    fix e assume "x = Some e"
    with m(4) have *: "0 < m" "?P (m - 1) = Inl e" "stored (Inl e :: exn + string) = None"
      by auto
    with fe [of "m - 1"] show "0 < m \<and> fetched srv reqs (m - 1) = Inl e \<and>
        stored (Inl e :: exn + string) = None" by simp
  qed
  have 6: "\<forall>k. k \<notin> set reqs \<longrightarrow> d k = ?d k"
    using m(6) unfolding reqs .
  have 7: "\<forall>j<m. reqs ! j \<notin> set (drop (Suc j) reqs) \<longrightarrow>
        stored (fetched srv reqs j) \<noteq> None \<longrightarrow> d (reqs ! j) = stored (fetched srv reqs j)"
  proof (intro allI impI)
    fix j assume j: "j < m" and l: "reqs ! j \<notin> set (drop (Suc j) reqs)"
      and s: "stored (fetched srv reqs j) \<noteq> None"
    from l have "?V ! j \<notin> set (drop (Suc j) (take m ?V))"
      using nth [OF j] by (simp add: reqs)
    moreover from s have "stored (?P j) \<noteq> None" using fe [OF j] by simp
    ultimately have "d (?V ! j) = stored (?P j)" using m(7) j by blast
    then show "d (reqs ! j) = stored (fetched srv reqs j)"
      using nth [OF j] fe [OF j] by simp
  qed
  show "reqs = take (length reqs) ?V" using reqs len by simp
  show "\<forall>j<length reqs. stored (fetched srv reqs j) = None \<longrightarrow>
           Suc j = length reqs \<and> x \<noteq> None"
    using 3 unfolding len .
  show "\<forall>e. x = Some e \<longrightarrow>
           0 < length reqs \<and> fetched srv reqs (length reqs - 1) = Inl e \<and>
           stored (Inl e :: exn + string) = None"
    using 4 unfolding len .
  show "x = None \<longrightarrow> reqs = ?V" using m(5) reqs by simp
  show "\<forall>k. k \<notin> set reqs \<longrightarrow> d k = ?d k" using 6 .
  show "\<forall>j<length reqs. reqs ! j \<notin> set (drop (Suc j) reqs) \<longrightarrow>
           stored (fetched srv reqs j) \<noteq> None \<longrightarrow>
           d (reqs ! j) = stored (fetched srv reqs j)"
    using 7 unfolding len .
qed

lemma mr2bib_dict_of:
  "mr2bib srv log id_list = (reqs, r) \<Longrightarrow>
     \<exists>d x. mr2bib_dict srv log id_list = (reqs, d, x) \<and>
       r = (case x of
              Some e \<Rightarrow> Inl e
            | None \<Rightarrow> Inr (map (\<lambda>i. case d i of Some b \<Rightarrow> b
                     | None \<Rightarrow> ErrorInfo (new_ReferenceErrorInfo ''Not found'' i)) id_list))"
proof -
  assume a: "mr2bib srv log id_list = (reqs, r)"
  obtain l d x where m: "mr2bib_dict srv log id_list = (l, d, x)"
    by (cases "mr2bib_dict srv log id_list") auto
  from mr2bib_of_dict [OF m] a m show ?thesis by simp
qed

lemma mr2bib_requests:
  assumes "mr2bib srv [] id_list = (reqs, r)"
  shows "\<exists>m\<le>length (filter is_valid id_list). reqs = take m (filter is_valid id_list) \<and>
     (\<forall>j<m. stored (fetched srv reqs j) = None \<longrightarrow> Suc j = m) \<and>
     (\<forall>e. r = Inl e \<longrightarrow> 0 < m \<and> fetched srv reqs (m - 1) = Inl e \<and>
        stored (Inl e :: exn + string) = None) \<and>
     (\<forall>bib. r = Inr bib \<longrightarrow> m = length (filter is_valid id_list))"
proof -
  from mr2bib_dict_of [OF assms] obtain d x where
    dx: "mr2bib_dict srv [] id_list = (reqs, d, x)"
    and r: "r = (case x of
              Some e \<Rightarrow> Inl e
            | None \<Rightarrow> Inr (map (\<lambda>i. case d i of Some b \<Rightarrow> b
                     | None \<Rightarrow> ErrorInfo (new_ReferenceErrorInfo ''Not found'' i)) id_list))"
    by blast
  note run = mr2bib_dict_run [OF dx]
  let ?m = "length reqs"
  have 1: "?m \<le> length (filter is_valid id_list)"
    using arg_cong [OF run(1), where f = length] by simp
  have 3: "\<forall>j<?m. stored (fetched srv reqs j) = None \<longrightarrow> Suc j = ?m"
    using run(2) by blast
  have 4: "\<forall>e. r = Inl e \<longrightarrow> 0 < ?m \<and> fetched srv reqs (?m - 1) = Inl e \<and>
        stored (Inl e :: exn + string) = None"
    using run(3) r by (cases x) auto
  have 5: "\<forall>bib. r = Inr bib \<longrightarrow> ?m = length (filter is_valid id_list)"
    using run(4) r by (cases x) auto
  from 1 run(1) 3 4 5 show ?thesis by (intro exI [of _ ?m] conjI)
qed

lemma mr2bib_entries:
  assumes "mr2bib srv [] id_list = (reqs, Inr bib)"
  shows "reqs = filter is_valid id_list"
    and "length bib = length id_list"
    and "\<And>i. i < length id_list \<Longrightarrow> \<not> is_valid (id_list ! i) \<Longrightarrow> bib ! i = invalid_info (id_list ! i)"
    and "\<And>n. n < length reqs \<Longrightarrow> stored (fetched srv reqs n) \<noteq> None"
    and "\<And>i n. i < length id_list \<Longrightarrow> n < length reqs \<Longrightarrow> reqs ! n = id_list ! i \<Longrightarrow>
           reqs ! n \<notin> set (drop (Suc n) reqs) \<Longrightarrow> Some (bib ! i) = stored (fetched srv reqs n)"
proof -
  let ?V = "filter is_valid id_list"
  from mr2bib_dict_of [OF assms] obtain d x where
    dx: "mr2bib_dict srv [] id_list = (reqs, d, x)"
    and r: "Inr bib = (case x of
              Some e \<Rightarrow> Inl e
            | None \<Rightarrow> Inr (map (\<lambda>i. case d i of Some b \<Rightarrow> b
                     | None \<Rightarrow> ErrorInfo (new_ReferenceErrorInfo ''Not found'' i)) id_list))"
    by blast
  from r have x: "x = None" by (cases x) auto
  with r have bib: "bib = map (\<lambda>i. case d i of Some b \<Rightarrow> b
                     | None \<Rightarrow> ErrorInfo (new_ReferenceErrorInfo ''Not found'' i)) id_list"
    by simp
  note run = mr2bib_dict_run [OF dx]
  show reqs: "reqs = ?V" using run(4) x by simp
  show "length bib = length id_list" by (simp add: bib)
  show "bib ! i = invalid_info (id_list ! i)" if "i < length id_list" "\<not> is_valid (id_list ! i)" for i
  proof -
    from that have "id_list ! i \<notin> set reqs" by (simp add: reqs)
    with run(5) have "d (id_list ! i) =
        (if id_list ! i \<in> set id_list \<and> \<not> is_valid (id_list ! i)
         then Some (invalid_info (id_list ! i)) else None)" by blast
    with that have "d (id_list ! i) = Some (invalid_info (id_list ! i))" by simp
    with that show ?thesis by (simp add: bib)
  qed
  have ok3: "\<forall>j<length reqs. stored (fetched srv reqs j) \<noteq> None"
    using run(2) x by blast
  show "stored (fetched srv reqs n) \<noteq> None" if "n < length reqs" for n
    using that ok3 by blast
  show "Some (bib ! i) = stored (fetched srv reqs n)"
    if "i < length id_list" "n < length reqs" "reqs ! n = id_list ! i"
       "reqs ! n \<notin> set (drop (Suc n) reqs)" for i n
  proof -
    from that ok3 have s: "stored (fetched srv reqs n) \<noteq> None" by blast
    with that run(6) have "d (reqs ! n) = stored (fetched srv reqs n)" by blast
    with that s show ?thesis by (auto simp: bib)
  qed
qed

lemma last_occurrence:
  "k \<in> set xs \<Longrightarrow> \<exists>j<length xs. xs ! j = k \<and> k \<notin> set (drop (Suc j) xs)"
proof -
  assume "k \<in> set xs"
  then obtain ys zs where "xs = ys @ k # zs" "k \<notin> set zs"
    by (auto dest: split_list_last)
  then have "length ys < length xs \<and> xs ! length ys = k \<and> k \<notin> set (drop (Suc (length ys)) xs)"
    by simp
  then show ?thesis by blast
qed

lemma stored_cases:
  "stored (fetched srv reqs n) = Some b \<Longrightarrow>
     b = ErrorInfo (new_ReferenceErrorInfo ''No such publication'' (reqs ! n)) \<or>
     (\<exists>entry. b = Reference entry \<and> fetched srv reqs n = Inr entry)"
  using parse_response_cases [of "reqs ! n" "srv (take n reqs) (reqs ! n)"]
  by (auto simp: fetched_def stored_def)

text \<open>
  Claim C4, as the code has it. An identifier that fails \<open>is_valid\<close> is never requested
  from the server, and the aggregator stores for it an error descriptor whose message
  is \<open>Invalid Mathematical Reviews identifier\<close> and whose identifier is the input
  identifier. This holds of the dictionary in every run, also one that a fatal answer
  to a later request aborts; when the result list is returned, the descriptor is the
  identifier's entry in it.
\<close>

theorem invalid_identifier_error_info:
  assumes "mr2bib_dict srv [] id_list = (reqs, d, x)" "i < length id_list"
    and "\<not> is_valid (id_list ! i)"
  shows "id_list ! i \<notin> set reqs \<and>
     (\<exists>e. e = new_ReferenceErrorInfo ''Invalid Mathematical Reviews identifier'' (id_list ! i) \<and>
          message e = ''Invalid Mathematical Reviews identifier'' \<and>
          ref_id e = id_list ! i \<and>
          d (id_list ! i) = Some (ErrorInfo e) \<and>
          (\<forall>bib. snd (mr2bib srv [] id_list) = Inr bib \<longrightarrow> bib ! i = ErrorInfo e))"
proof -
  let ?e = "new_ReferenceErrorInfo ''Invalid Mathematical Reviews identifier'' (id_list ! i)"
  note run = mr2bib_dict_run [OF assms(1)]
  have "set reqs \<subseteq> set (filter is_valid id_list)"
    using run(1) set_take_subset [of "length reqs" "filter is_valid id_list"] by simp
  with assms(3) have 1: "id_list ! i \<notin> set reqs" by auto
  have mem: "id_list ! i \<in> set id_list" using assms(2) by simp
  from run(5) 1 have "d (id_list ! i) =
      (if id_list ! i \<in> set id_list \<and> \<not> is_valid (id_list ! i)
       then Some (invalid_info (id_list ! i)) else None)" by blast
  with mem assms(3) have 2: "d (id_list ! i) = Some (ErrorInfo ?e)"
    by (simp add: invalid_info_def)
  have 3: "message ?e = ''Invalid Mathematical Reviews identifier''" "ref_id ?e = id_list ! i"
    by (simp_all add: new_ReferenceErrorInfo_def)
  have 4: "bib ! i = ErrorInfo ?e" if "snd (mr2bib srv [] id_list) = Inr bib" for bib
  proof -
    from that mr2bib_of_dict [OF assms(1)] have "mr2bib srv [] id_list = (reqs, Inr bib)"
      by simp
    from mr2bib_entries(3) [OF this assms(2,3)] show ?thesis
      by (simp add: invalid_info_def)
  qed
  from 1 2 3 4 show ?thesis by simp
qed

lemma example_run_1:
  "fst (mr2bib_dict example_server [] [''XR1996800'', ''MR1111111'']) = [''MR1111111'']"
  "snd (snd (mr2bib_dict example_server [] [''XR1996800'', ''MR1111111''])) =
     Some (Exception ''Received HTTP status code 500'')"
  "fst (snd (mr2bib_dict example_server [] [''XR1996800'', ''MR1111111''])) ''XR1996800'' =
     Some (ErrorInfo \<lparr> message = ''Invalid Mathematical Reviews identifier'',
                       ref_id = ''XR1996800'', bare_id = ''XR199680'', updated = ''0'' \<rparr>)"
  by code_simp+

theorem invalid_identifier_error_info_witness:
  "\<not> is_valid ''XR1996800'' \<and>
   fst (mr2bib_dict example_server [] [''XR1996800'', ''MR1111111'']) = [''MR1111111''] \<and>
   snd (snd (mr2bib_dict example_server [] [''XR1996800'', ''MR1111111''])) =
     Some (Exception ''Received HTTP status code 500'') \<and>
   ''XR1996800'' \<notin> set (fst (mr2bib_dict example_server [] [''XR1996800'', ''MR1111111''])) \<and>
   fst (snd (mr2bib_dict example_server [] [''XR1996800'', ''MR1111111''])) ''XR1996800'' =
     Some (ErrorInfo \<lparr> message = ''Invalid Mathematical Reviews identifier'',
                       ref_id = ''XR1996800'', bare_id = ''XR199680'', updated = ''0'' \<rparr>)"
proof -
  let ?R = "mr2bib_dict example_server [] [''XR1996800'', ''MR1111111'']"
  have run: "?R = (fst ?R, fst (snd ?R), snd (snd ?R))" by simp
  have i: "0 < length [''XR1996800'', ''MR1111111'']" by simp
  have v: "\<not> is_valid ([''XR1996800'', ''MR1111111''] ! 0)" by code_simp
  from invalid_identifier_error_info [OF run i v] v example_run_1
  show ?thesis by simp
qed

text \<open>
  The message of that descriptor is not the \<open>Invalid identifier\<close> of the specification.
\<close>

theorem invalid_identifier_message_counterexample:
  "snd (mr2bib example_server [] [''XR1996800'']) =
     Inr [ErrorInfo (new_ReferenceErrorInfo ''Invalid Mathematical Reviews identifier'' ''XR1996800'')] \<and>
   message (new_ReferenceErrorInfo ''Invalid Mathematical Reviews identifier'' ''XR1996800'')
     \<noteq> ''Invalid identifier''"
  by code_simp

text \<open>
  Claim C3, as the code has it. When the answer to the \<open>n\<close>-th request has status 200
  and a line with the not-found marker, the run goes on to the next valid identifier, and
  what the aggregator stores for the requested identifier is an error descriptor whose
  message is \<open>No such publication\<close> and whose identifier is the requested one. The
  dictionary is keyed by identifier: unless the same identifier is requested again later
  in the run, the descriptor is its entry in the dictionary at the end of every run, also
  an aborted one, and its entry in the result list when the list is returned.
\<close>

theorem not_found_error_info:
  assumes "mr2bib_dict srv [] id_list = (reqs, d, x)" "n < length reqs"
    and "status_code (srv (take n reqs) (reqs ! n)) = 200"
    and "has_not_found_marker (srv (take n reqs) (reqs ! n))"
  shows "is_valid (reqs ! n) \<and>
     (Suc n < length (filter is_valid id_list) \<longrightarrow> Suc n < length reqs) \<and>
     (\<exists>e. e = new_ReferenceErrorInfo ''No such publication'' (reqs ! n) \<and>
          message e = ''No such publication'' \<and>
          ref_id e = reqs ! n \<and>
          stored (fetched srv reqs n) = Some (ErrorInfo e) \<and>
          (reqs ! n \<notin> set (drop (Suc n) reqs) \<longrightarrow>
             d (reqs ! n) = Some (ErrorInfo e) \<and>
             (\<forall>bib i. snd (mr2bib srv [] id_list) = Inr bib \<and> i < length id_list \<and>
                 id_list ! i = reqs ! n \<longrightarrow> bib ! i = ErrorInfo e)))"
proof -
  let ?V = "filter is_valid id_list"
  let ?e = "new_ReferenceErrorInfo ''No such publication'' (reqs ! n)"
  have nf: "fetched srv reqs n = Inl (NotFoundError ''No such publication'' (reqs ! n))"
    using assms(3,4) by (simp add: fetched_def parse_response_not_found)
  then have st: "stored (fetched srv reqs n) = Some (ErrorInfo ?e)"
    by (simp add: stored_def)
  note run = mr2bib_dict_run [OF assms(1)]
  have "reqs ! n \<in> set ?V"
    using assms(2) run(1) by (metis in_set_takeD nth_mem)
  then have 1: "is_valid (reqs ! n)" by simp
  have 2: "Suc n < length reqs" if "Suc n < length ?V"
  proof (cases x)
    case (Some e)
    with run(3) have "fetched srv reqs (length reqs - 1) = Inl e"
      "stored (Inl e :: exn + string) = None"
      by auto
    with st have "n \<noteq> length reqs - 1" by auto
    with assms(2) show ?thesis by simp
  next
    case None
    with run(4) that show ?thesis by simp
  qed
  have 3: "message ?e = ''No such publication''" "ref_id ?e = reqs ! n"
    by (simp_all add: new_ReferenceErrorInfo_def)
  have 4: "d (reqs ! n) = Some (ErrorInfo ?e)" if "reqs ! n \<notin> set (drop (Suc n) reqs)"
    using run(6) assms(2) that st by simp
  have 5: "bib ! i = ErrorInfo ?e"
    if "reqs ! n \<notin> set (drop (Suc n) reqs)" "snd (mr2bib srv [] id_list) = Inr bib"
       "i < length id_list" "id_list ! i = reqs ! n" for bib i
  proof -
    from that(2) mr2bib_of_dict [OF assms(1)] have "mr2bib srv [] id_list = (reqs, Inr bib)"
      by simp
    from mr2bib_entries(5) [OF this that(3) assms(2)] that(1,4) st show ?thesis by simp
  qed
  from 1 2 3 st 4 5 show ?thesis by simp
qed

lemma example_run_2:
  "fst (mr2bib_dict example_server [] [''MR0000000'', ''MR1996800'', ''MR1111111'']) =
     [''MR0000000'', ''MR1996800'', ''MR1111111'']"
  "snd (snd (mr2bib_dict example_server [] [''MR0000000'', ''MR1996800'', ''MR1111111''])) =
     Some (Exception ''Received HTTP status code 500'')"
  "fst (snd (mr2bib_dict example_server [] [''MR0000000'', ''MR1996800'', ''MR1111111'']))
       ''MR0000000'' =
     Some (ErrorInfo \<lparr> message = ''No such publication'', ref_id = ''MR0000000'',
                       bare_id = ''MR000000'', updated = ''0'' \<rparr>)"
  by code_simp+

theorem not_found_error_info_witness:
  "status_code (example_server [] ''MR0000000'') = 200 \<and>
   has_not_found_marker (example_server [] ''MR0000000'') \<and>
   is_valid ''MR0000000'' \<and>
   fst (mr2bib_dict example_server [] [''MR0000000'', ''MR1996800'', ''MR1111111'']) =
     [''MR0000000'', ''MR1996800'', ''MR1111111''] \<and>
   snd (snd (mr2bib_dict example_server [] [''MR0000000'', ''MR1996800'', ''MR1111111''])) =
     Some (Exception ''Received HTTP status code 500'') \<and>
   fst (snd (mr2bib_dict example_server [] [''MR0000000'', ''MR1996800'', ''MR1111111'']))
       ''MR0000000'' =
     Some (ErrorInfo \<lparr> message = ''No such publication'', ref_id = ''MR0000000'',
                       bare_id = ''MR000000'', updated = ''0'' \<rparr>)"
proof -
  let ?L = "[''MR0000000'', ''MR1996800'', ''MR1111111'']"
  let ?R = "mr2bib_dict example_server [] ?L"
  have run: "?R = (fst ?R, fst (snd ?R), snd (snd ?R))" by simp
  have n: "0 < length (fst ?R)" by (simp add: example_run_2)
  have s: "status_code (example_server (take 0 (fst ?R)) (fst ?R ! 0)) = 200"
    unfolding example_run_2 by code_simp
  have h: "has_not_found_marker (example_server (take 0 (fst ?R)) (fst ?R ! 0))"
    unfolding example_run_2 by code_simp
  have s': "status_code (example_server [] ''MR0000000'') = 200" by code_simp
  have h': "has_not_found_marker (example_server [] ''MR0000000'')" by code_simp
  from not_found_error_info [OF run n s h] s' h' example_run_2
  show ?thesis by simp
qed

text \<open>
  The message of that descriptor is not the \<open>Not found\<close> of the specification.
\<close>

theorem not_found_message_counterexample:
  "snd (mr2bib example_server [] [''MR0000000'']) =
     Inr [ErrorInfo (new_ReferenceErrorInfo ''No such publication'' ''MR0000000'')] \<and>
   message (new_ReferenceErrorInfo ''No such publication'' ''MR0000000'') \<noteq> ''Not found''"
  by code_simp

text \<open>
  Claim C5. When no request is fatal, the result list has one entry for each input
  identifier, in the order of the input: the entry at position \<open>i\<close> belongs to the
  identifier at position \<open>i\<close>, be it invalid, not found or found, and given once or
  several times. The requests are the valid identifiers, in order.
\<close>

theorem one_entry_per_identifier:
  assumes "mr2bib srv [] id_list = (reqs, Inr bib)"
  shows "length bib = length id_list \<and> reqs = filter is_valid id_list \<and>
     (\<forall>i<length id_list. entry_for srv reqs (id_list ! i) (bib ! i))"
proof -
  note e = mr2bib_entries [OF assms]
  have "entry_for srv reqs (id_list ! i) (bib ! i)" if i: "i < length id_list" for i
  proof (cases "is_valid (id_list ! i)")
    case False
    with e(3) [OF i] show ?thesis by (simp add: invalid_info_def)
  next
    case True
    with i have "id_list ! i \<in> set reqs" by (simp add: e(1))
    from last_occurrence [OF this] obtain n where
      n: "n < length reqs" "reqs ! n = id_list ! i" "id_list ! i \<notin> set (drop (Suc n) reqs)"
      by blast
    with e(5) [OF i, of n] have s: "stored (fetched srv reqs n) = Some (bib ! i)" by simp
    from stored_cases [OF s] show ?thesis
    proof
      assume "bib ! i = ErrorInfo (new_ReferenceErrorInfo ''No such publication'' (reqs ! n))"
      with True n show ?thesis by simp
    next
      assume "\<exists>entry. bib ! i = Reference entry \<and> fetched srv reqs n = Inr entry"
      then obtain entry where "bib ! i = Reference entry" "fetched srv reqs n = Inr entry"
        by blast
      with True n show ?thesis by (auto simp: list_ex_iff)
    qed
  qed
  with e(1,2) show ?thesis by blast
qed

lemma example_run_3:
  "mr2bib example_server [] [''XR1996800'', ''MR0000000'', ''MR1996800'', ''MR0000000''] =
     ([''MR0000000'', ''MR1996800'', ''MR0000000''],
      Inr [ErrorInfo (new_ReferenceErrorInfo ''Invalid Mathematical Reviews identifier'' ''XR1996800''),
           ErrorInfo (new_ReferenceErrorInfo ''No such publication'' ''MR0000000''),
           Reference ''\<newline>@article {MR1996800,\<newline>}'',
           ErrorInfo (new_ReferenceErrorInfo ''No such publication'' ''MR0000000'')])"
  by code_simp

theorem one_entry_per_identifier_witness:
  "mr2bib example_server [] [''XR1996800'', ''MR0000000'', ''MR1996800'', ''MR0000000''] =
     ([''MR0000000'', ''MR1996800'', ''MR0000000''],
      Inr [ErrorInfo (new_ReferenceErrorInfo ''Invalid Mathematical Reviews identifier'' ''XR1996800''),
           ErrorInfo (new_ReferenceErrorInfo ''No such publication'' ''MR0000000''),
           Reference ''\<newline>@article {MR1996800,\<newline>}'',
           ErrorInfo (new_ReferenceErrorInfo ''No such publication'' ''MR0000000'')]) \<and>
   entry_for example_server [''MR0000000'', ''MR1996800'', ''MR0000000''] ''MR1996800''
     (Reference ''\<newline>@article {MR1996800,\<newline>}'')"
  using one_entry_per_identifier [OF example_run_3] example_run_3
  by (auto simp: numeral_3_eq_3 numeral_eq_Suc less_Suc_eq all_conj_distrib)

section \<open>The command line interface\<close>

lemma mr2bib_Nil: "mr2bib srv log [] = (log, Inr [])"
  by (simp add: mr2bib_def mr2bib_dict_def)

lemma new_Cli_fields:
  "cli_output (new_Cli p s) = []" "messages (new_Cli p s) = []"
  "error_count (new_Cli p s) = 0" "code (new_Cli p s) = 0"
  by (simp_all add: new_Cli_def Let_def)

lemma new_Cli_empty:
  "new_Cli (a\<lparr>ids := []\<rparr>) [] =
     \<lparr> cli_args = (if comments a \<and> \<not> verbose a then a\<lparr>ids := [], quiet := True\<rparr>
                   else a\<lparr>ids := []\<rparr>),
       cli_output = [], messages = [], error_count = 0, code = 0 \<rparr>"
  by (simp add: new_Cli_def Let_def)

lemma run_empty:
  "run srv (new_Cli (a\<lparr>ids := []\<rparr>) []) =
     ([], Inr ((new_Cli (a\<lparr>ids := []\<rparr>) [])
                 \<lparr>messages := [''No successful matches''], code := 2\<rparr>))"
  by (simp add: run_def mr2bib_Nil tally_errors_def new_Cli_empty)

text \<open>
  Claim C9. With no identifier on the command line and an empty standard input, the run
  makes no request and counts no error, yet the exit code is 2 and
  \<open>No successful matches\<close> is written to standard error: the error count 0 equals the
  length 0 of the identifier list.
\<close>

theorem empty_id_list_exits_2:
  "(\<exists>c. run (server sys) (new_Cli (a\<lparr>ids := []\<rparr>) []) = ([], Inr c) \<and>
        error_count c = 0 \<and> code c = 2 \<and> messages c = [''No successful matches'']) \<and>
   main (sys\<lparr>stdin := []\<rparr>) (a\<lparr>ids := []\<rparr>) =
     (\<lparr> requests = [], stdout = [], stderr = [''No successful matches'' @ linesep sys] \<rparr>,
      Inr 2) \<and>
   exit_status (snd (main (sys\<lparr>stdin := []\<rparr>) (a\<lparr>ids := []\<rparr>))) = 2"
proof -
  have r: "run (server sys) (new_Cli (a\<lparr>ids := []\<rparr>) []) =
     ([], Inr ((new_Cli (a\<lparr>ids := []\<rparr>) [])
                 \<lparr>messages := [''No successful matches''], code := 2\<rparr>))"
    by (rule run_empty)
  have e: "error_count (new_Cli (a\<lparr>ids := []\<rparr>) []) = 0"
    by (rule new_Cli_fields)
  have m: "main (sys\<lparr>stdin := []\<rparr>) (a\<lparr>ids := []\<rparr>) =
     (\<lparr> requests = [], stdout = [], stderr = [''No successful matches'' @ linesep sys] \<rparr>,
      Inr 2)"
    by (simp add: main_def r print_output_def print_messages_def new_Cli_fields)
  show ?thesis
    using e by (simp add: r m exit_status_def)
qed

lemma create_output_args: "cli_args (create_output c bib) = cli_args c"
  by (induction c bib rule: create_output.induct) (simp_all add: Let_def)

lemma create_output_code: "code (create_output c bib) = code c"
  by (induction c bib rule: create_output.induct) (simp_all add: Let_def)

lemma create_output_count:
  "error_count (create_output c bib) =
     error_count c + int (length (filter isinstance_ReferenceErrorInfo bib))"
  by (induction c bib rule: create_output.induct) (simp_all add: Let_def)

lemma create_output_messages_quiet:
  "quiet (cli_args c) \<Longrightarrow> messages (create_output c bib) = messages c"
  by (induction c bib rule: create_output.induct) (simp_all add: Let_def)

lemma create_output_output_comments:
  "comments (cli_args c) \<Longrightarrow> cli_output (create_output c bib) = cli_output c @ map bibtex bib"
  by (induction c bib rule: create_output.induct) (simp_all add: Let_def)

text \<open>
  Claim C8. With the comments flag set and the verbose flag not set, quiet is forced on:
  \<open>create_output\<close> appends no line to the message buffer, whatever the results, and
  appends to the output buffer one line for each result, \<open>@comment{id: message}\<close> for an
  error.
\<close>

theorem comments_force_quiet:
  assumes "comments a" "\<not> verbose a"
  shows "quiet (cli_args (new_Cli a inp)) \<and>
     messages (create_output (new_Cli a inp) bib) = [] \<and>
     cli_output (create_output (new_Cli a inp) bib) =
       map (\<lambda>b. case b of
                  ErrorInfo e \<Rightarrow> ''@comment{'' @ ref_id e @ '': '' @ message e @ ''}''
                | Reference entry \<Rightarrow> entry) bib"
proof -
  have q: "quiet (cli_args (new_Cli a inp))" and c: "comments (cli_args (new_Cli a inp))"
    using assms by (simp_all add: new_Cli_def Let_def)
  have b: "bibtex = (\<lambda>b. case b of
                  ErrorInfo e \<Rightarrow> ''@comment{'' @ ref_id e @ '': '' @ message e @ ''}''
                | Reference entry \<Rightarrow> entry)"
    by (auto simp: fun_eq_iff split: reference.splits)
  show ?thesis
    using q create_output_messages_quiet [OF q, of bib] create_output_output_comments [OF c, of bib]
    by (simp add: new_Cli_fields b [symmetric])
qed

theorem comments_force_quiet_witness:
  "messages (create_output
       (new_Cli \<lparr> ids = [''MR0000000''], comments = True, quiet = False, verbose = False \<rparr> [])
       [ErrorInfo (new_ReferenceErrorInfo ''No such publication'' ''MR0000000'')]) = [] \<and>
   cli_output (create_output
       (new_Cli \<lparr> ids = [''MR0000000''], comments = True, quiet = False, verbose = False \<rparr> [])
       [ErrorInfo (new_ReferenceErrorInfo ''No such publication'' ''MR0000000'')]) =
     [''@comment{MR0000000: No such publication}'']"
  using comments_force_quiet
    [of "\<lparr> ids = [''MR0000000''], comments = True, quiet = False, verbose = False \<rparr>" "[]"
        "[ErrorInfo (new_ReferenceErrorInfo ''No such publication'' ''MR0000000'')]"]
  by (simp add: new_ReferenceErrorInfo_def)

lemma str_int_nat: "str_int (int n) = str_nat n"
  by (simp add: str_int_def)

lemma run_Inr:
  assumes "mr2bib srv [] (ids (cli_args c0)) = (reqs, Inr bib)"
  shows "run srv c0 =
     (reqs, Inr ((fst (tally_errors (create_output c0 bib) bib))
                   \<lparr>code := snd (tally_errors (create_output c0 bib) bib)\<rparr>))"
  using assms by (simp add: run_def Let_def split: prod.splits)

lemma main_Inr:
  "run (server sys) (new_Cli a (stdin sys)) = (reqs, Inr c) \<Longrightarrow>
     snd (main sys a) = Inr (code c) \<and> requests (fst (main sys a)) = reqs"
  by (simp add: main_def print_output_def print_messages_def Let_def split: prod.splits)

lemma main_Inl_uncaught:
  "run (server sys) (new_Cli a (stdin sys)) = (reqs, Inl (Exception msg)) \<Longrightarrow>
     main sys a = (\<lparr> requests = reqs, stdout = [], stderr = [] \<rparr>, Inl (Exception msg))"
  by (simp add: main_def)

text \<open>
  Claim C2, as the code has it. For a non-empty identifier list and a run without a
  fatal failure, the exit code is 0 when no result is an error, 1 when some but not all
  are (and \<open>N of M matched succesfully\<close> is appended to the messages), 2 when all are
  (and \<open>No successful matches\<close> is appended).
\<close>

theorem exit_code_policy:
  assumes "mr2bib (server sys) [] (ids (cli_args (new_Cli a (stdin sys)))) = (reqs, Inr bib)"
    and "ids (cli_args (new_Cli a (stdin sys))) \<noteq> []"
  shows "\<exists>c. run (server sys) (new_Cli a (stdin sys)) = (reqs, Inr c) \<and>
     snd (main sys a) = Inr (code c) \<and>
     (let E = length (filter isinstance_ReferenceErrorInfo bib);
          M = length bib;
          per_error = messages (create_output (new_Cli a (stdin sys)) bib)
      in (E = 0 \<longrightarrow> code c = 0 \<and> messages c = per_error) \<and>
         (0 < E \<and> E < M \<longrightarrow>
            code c = 1 \<and>
            messages c = per_error @
              [str_nat (M - E) @ '' of '' @ str_nat M @ '' matched succesfully'']) \<and>
         (E = M \<longrightarrow> code c = 2 \<and> messages c = per_error @ [''No successful matches'']))"
proof -
  let ?init = "new_Cli a (stdin sys)"
  let ?out = "create_output ?init bib"
  let ?E = "length (filter isinstance_ReferenceErrorInfo bib)"
  let ?fin = "(fst (tally_errors ?out bib))\<lparr>code := snd (tally_errors ?out bib)\<rparr>"
  have len: "length bib = length (ids (cli_args ?init))"
    using mr2bib_entries(2) [OF assms(1)] .
  have pos: "0 < length bib" using len assms(2) by simp
  have cnt: "error_count ?out = int ?E"
    by (simp add: create_output_count new_Cli_fields)
  have le: "?E \<le> length bib" by simp
  have r: "run (server sys) ?init = (reqs, Inr ?fin)"
    using run_Inr [OF assms(1)] .
  have m: "snd (main sys a) = Inr (code ?fin)"
    using main_Inr [OF r] by simp
  have d: "int (length bib) - int ?E = int (length bib - ?E)"
    using le by simp
  have t0: "?E = 0 \<Longrightarrow> code ?fin = 0 \<and> messages ?fin = messages ?out"
    using pos by (simp add: tally_errors_def cnt create_output_args len [symmetric])
  have t1: "0 < ?E \<Longrightarrow> ?E < length bib \<Longrightarrow> code ?fin = 1 \<and> messages ?fin = messages ?out @
      [str_nat (length bib - ?E) @ '' of '' @ str_nat (length bib) @ '' matched succesfully'']"
    by (simp add: tally_errors_def cnt create_output_args len [symmetric] d str_int_nat
          del: of_nat_diff)
  have t2: "?E = length bib \<Longrightarrow> code ?fin = 2 \<and> messages ?fin = messages ?out @ [''No successful matches'']"
    by (simp add: tally_errors_def cnt create_output_args len [symmetric])
  show ?thesis
    using r m t0 t1 t2 by (intro exI [of _ ?fin]) (simp add: Let_def)
qed

lemma example_run_4:
  "mr2bib (server example_os) []
       (ids (cli_args (new_Cli (example_args [''MR1996800'', ''MR0000000'', ''MR1996800''])
                               (stdin example_os)))) =
     ([''MR1996800'', ''MR0000000'', ''MR1996800''],
      Inr [Reference ''\<newline>@article {MR1996800,\<newline>}'',
           ErrorInfo (new_ReferenceErrorInfo ''No such publication'' ''MR0000000''),
           Reference ''\<newline>@article {MR1996800,\<newline>}''])"
  by code_simp

lemma example_ids_4:
  "ids (cli_args (new_Cli (example_args [''MR1996800'', ''MR0000000'', ''MR1996800''])
                          (stdin example_os))) \<noteq> []"
  by code_simp

lemma example_messages_4:
  "messages (create_output
      (new_Cli (example_args [''MR1996800'', ''MR0000000'', ''MR1996800'']) (stdin example_os))
      [Reference ''\<newline>@article {MR1996800,\<newline>}'',
       ErrorInfo (new_ReferenceErrorInfo ''No such publication'' ''MR0000000''),
       Reference ''\<newline>@article {MR1996800,\<newline>}'']) =
   [''Error: No such publication (MR0000000)'']"
  by code_simp

lemma str_nat_examples:
  "str_nat (Suc (Suc 0)) = ''2''" "str_nat (Suc (Suc (Suc 0))) = ''3''"
  by code_simp+

theorem exit_code_policy_witness:
  "\<exists>c. run (server example_os)
          (new_Cli (example_args [''MR1996800'', ''MR0000000'', ''MR1996800''])
                   (stdin example_os)) =
          ([''MR1996800'', ''MR0000000'', ''MR1996800''], Inr c) \<and>
       snd (main example_os (example_args [''MR1996800'', ''MR0000000'', ''MR1996800''])) = Inr 1 \<and>
       code c = 1 \<and>
       messages c = [''Error: No such publication (MR0000000)'', ''2 of 3 matched succesfully'']"
proof -
  have "\<exists>c. run (server example_os)
          (new_Cli (example_args [''MR1996800'', ''MR0000000'', ''MR1996800''])
                   (stdin example_os)) =
          ([''MR1996800'', ''MR0000000'', ''MR1996800''], Inr c) \<and>
       snd (main example_os (example_args [''MR1996800'', ''MR0000000'', ''MR1996800''])) =
         Inr (code c) \<and>
       code c = 1 \<and>
       messages c = [''Error: No such publication (MR0000000)'', ''2 of 3 matched succesfully'']"
    using exit_code_policy [OF example_run_4 example_ids_4]
    unfolding Let_def example_messages_4
    by (simp add: str_nat_examples)
  then show ?thesis by auto
qed

text \<open>
  For the empty identifier list no result is an error, and the exit code is 2, not 0.
\<close>

theorem exit_code_empty_list_counterexample:
  "snd (mr2bib (server example_os) [] (ids (example_args []))) = Inr [] \<and>
   snd (main example_os (example_args [])) = Inr 2"
  by code_simp

text \<open>
  A status that is neither 200 nor 401 ends the run at that request: the exception
  carries the status code, is caught neither by \<open>run\<close> (which catches \<open>HTTPError\<close>) nor by
  \<open>main\<close> (which catches \<open>FatalError\<close>), and the exit status is 1.
\<close>

lemma fatal_status_aborts:
  assumes "mr2bib srv [] id_list = (reqs, r)" "n < length reqs"
    and "status_code (srv (take n reqs) (reqs ! n)) \<noteq> 200"
    and "status_code (srv (take n reqs) (reqs ! n)) \<noteq> 401"
  shows "Suc n = length reqs \<and>
     r = Inl (Exception (''Received HTTP status code '' @
                          str_int (status_code (srv (take n reqs) (reqs ! n)))))"
proof -
  let ?e = "Exception (''Received HTTP status code '' @
                          str_int (status_code (srv (take n reqs) (reqs ! n))))"
  have f: "fetched srv reqs n = Inl ?e"
    using assms(3,4) by (simp add: fetched_def parse_response_def)
  then have s: "stored (fetched srv reqs n) = None" by (simp add: stored_def)
  from mr2bib_requests [OF assms(1)] obtain m where
    m: "m \<le> length (filter is_valid id_list)" "reqs = take m (filter is_valid id_list)"
       "\<forall>j<m. stored (fetched srv reqs j) = None \<longrightarrow> Suc j = m"
       "\<forall>e. r = Inl e \<longrightarrow> 0 < m \<and> fetched srv reqs (m - 1) = Inl e \<and>
          stored (Inl e :: exn + string) = None"
    by blast
  have len: "length reqs = m" using m(1,2) by simp
  with assms(2) m(3) s have 1: "Suc n = length reqs" by simp
  have 2: "r = Inl ?e"
  proof (cases r)
    case (Inl e)
    with m(4) have "fetched srv reqs (m - 1) = Inl e" by blast
    with 1 len f Inl show ?thesis by auto
  next
    case (Inr bib)
    with assms(1) have "stored (fetched srv reqs n) \<noteq> None"
      using mr2bib_entries(4) [of srv id_list reqs bib n] assms(2) by simp
    with s show ?thesis by simp
  qed
  from 1 2 show ?thesis by blast
qed

lemma fatal_status_exit_status:
  assumes "mr2bib (server sys) [] (ids (cli_args (new_Cli a (stdin sys)))) = (reqs, r)"
    and "n < length reqs"
    and "status_code (server sys (take n reqs) (reqs ! n)) \<noteq> 200"
    and "status_code (server sys (take n reqs) (reqs ! n)) \<noteq> 401"
  shows "exit_status (snd (main sys a)) = 1 \<and> stderr (fst (main sys a)) = [] \<and>
     requests (fst (main sys a)) = take (Suc n) reqs"
proof -
  from fatal_status_aborts [OF assms] have
    l: "Suc n = length reqs" and r: "r = Inl (Exception (''Received HTTP status code '' @
          str_int (status_code (server sys (take n reqs) (reqs ! n)))))"
    by blast+
  have "run (server sys) (new_Cli a (stdin sys)) =
      (reqs, Inl (Exception (''Received HTTP status code '' @
          str_int (status_code (server sys (take n reqs) (reqs ! n))))))"
    using assms(1) r by (simp add: run_def)
  from main_Inl_uncaught [OF this] l show ?thesis
    by (simp add: exit_status_def)
qed

text \<open>
  Claim C1, at a concrete input. The first identifier is found, the second is answered
  with status 500: the third is not requested, nothing is written by \<open>main\<close>, the
  exception \<open>Received HTTP status code 500\<close> leaves \<open>main\<close>, and the exit status is 1
  where the claim says 2.
\<close>

theorem fatal_status_exit_1:
  "main example_os (example_args [''MR1996800'', ''MR1111111'', ''MR0000000'']) =
     (\<lparr> requests = [''MR1996800'', ''MR1111111''], stdout = [], stderr = [] \<rparr>,
      Inl (Exception ''Received HTTP status code 500'')) \<and>
   exit_status
     (snd (main example_os (example_args [''MR1996800'', ''MR1111111'', ''MR0000000'']))) = 1"
  by code_simp

section \<open>The extraction of the markup\<close>

lemma split_nl_nonempty: "split_nl s \<noteq> []"
  by (induction s) (auto split: list.splits)

lemma split_nl_first:
  "split_nl s = l # ls \<Longrightarrow>
     CHR 0x0A \<notin> set l \<and> (s = l \<and> ls = [] \<or> (\<exists>rest. s = l @ CHR 0x0A # rest))"
proof (induction s arbitrary: l ls)
  case Nil
  then show ?case by simp
next
  case (Cons c cs)
  show ?case
  proof (cases "c = CHR 0x0A")
    case True
    with Cons.prems show ?thesis by auto
  next
    case False
    obtain l' ls' where s: "split_nl cs = l' # ls'"
      using split_nl_nonempty [of cs] by (cases "split_nl cs") auto
    with Cons.prems False have l: "l = c # l'" "ls = ls'" by auto
    from Cons.IH [OF s] False l show ?thesis by auto
  qed
qed

lemma prefix_before_newline:
  assumes "CHR 0x0A \<notin> set m"
  shows "prefix m (xs @ CHR 0x0A # rest) \<longleftrightarrow> prefix m xs"
proof
  assume "prefix m (xs @ CHR 0x0A # rest)"
  then consider "prefix m xs" | us where "m = xs @ us" "prefix us (CHR 0x0A # rest)"
    unfolding prefix_append by blast
  then show "prefix m xs"
  proof cases
    case 1
    then show ?thesis .
  next
    case 2
    with assms have "us = []" by (cases us) auto
    with 2 show ?thesis by simp
  qed
next
  assume "prefix m xs"
  then show "prefix m (xs @ CHR 0x0A # rest)" by (rule prefix_prefix)
qed

lemma sublist_split_nl:
  assumes "CHR 0x0A \<notin> set m"
  shows "list_ex (sublist m) (split_nl s) \<longleftrightarrow> sublist m s"
proof (induction s)
  case Nil
  then show ?case by simp
next
  case (Cons c cs)
  obtain l ls where s: "split_nl cs = l # ls"
    using split_nl_nonempty [of cs] by (cases "split_nl cs") auto
  note f = split_nl_first [OF s]
  show ?case
  proof (cases "c = CHR 0x0A")
    case True
    have "prefix m (c # cs) \<longleftrightarrow> m = []"
      using assms True by (cases m) auto
    then show ?thesis
      using Cons.IH True by (auto simp: sublist_Cons_right)
  next
    case False
    have p: "prefix m (c # cs) \<longleftrightarrow> prefix m (c # l)"
    proof -
      from f consider "cs = l" | rest where "cs = l @ CHR 0x0A # rest" by blast
      then show ?thesis
      proof cases
        case 1
        then show ?thesis by simp
      next
        case 2
        then have "c # cs = (c # l) @ CHR 0x0A # rest" by simp
        then show ?thesis using prefix_before_newline [OF assms, of "c # l" rest] by simp
      qed
    qed
    have "list_ex (sublist m) (split_nl (c # cs)) \<longleftrightarrow>
        sublist m (c # l) \<or> list_ex (sublist m) ls"
      using False s by simp
    also have "\<dots> \<longleftrightarrow> prefix m (c # l) \<or> sublist m l \<or> list_ex (sublist m) ls"
      by (auto simp: sublist_Cons_right)
    also have "\<dots> \<longleftrightarrow> prefix m (c # cs) \<or> list_ex (sublist m) (split_nl cs)"
      using p s by auto
    also have "\<dots> \<longleftrightarrow> sublist m (c # cs)"
      using Cons.IH by (auto simp: sublist_Cons_right)
    finally show ?thesis .
  qed
qed

lemma has_not_found_marker_iff:
  "has_not_found_marker r \<longleftrightarrow> sublist not_found_marker (resp_text r)"
  unfolding has_not_found_marker_def
  by (rule sublist_split_nl) (simp add: not_found_marker_def)

lemma open_not_close: "is_open_marker l \<Longrightarrow> \<not> is_close_marker l"
  by (simp add: is_open_marker_def is_close_marker_def)

lemma block_open_iff:
  "block_open ls n \<longleftrightarrow>
     (\<exists>j<n. is_open_marker (ls ! j) \<and> (\<forall>m. j < m \<and> m < n \<longrightarrow> \<not> is_close_marker (ls ! m)))"
  by (simp add: block_open_def list_ex_iff list_all_iff Bex_def Ball_def Suc_le_eq)

lemma in_block_iff:
  "in_block ls i \<longleftrightarrow>
     (\<exists>j<i. is_open_marker (ls ! j) \<and> (\<forall>m. j < m \<and> m \<le> i \<longrightarrow> \<not> is_close_marker (ls ! m)))"
proof -
  have r: "(\<forall>m\<in>set [Suc j..<Suc i]. P m) \<longleftrightarrow> (\<forall>m. j < m \<and> m \<le> i \<longrightarrow> P m)"
    for j and P :: "nat \<Rightarrow> bool"
    by (auto simp: Suc_le_eq)
  have e: "(\<exists>j\<in>set [0..<i]. Q j) \<longleftrightarrow> (\<exists>j<i. Q j)" for Q :: "nat \<Rightarrow> bool"
    by auto
  show ?thesis
    unfolding in_block_def list_ex_iff list_all_iff r e ..
qed

lemma in_block_flag: "in_block ls i \<longleftrightarrow> block_open ls i \<and> \<not> is_close_marker (ls ! i)"
proof
  assume "in_block ls i"
  then obtain j where j: "j < i" "is_open_marker (ls ! j)"
    "\<forall>m. j < m \<and> m \<le> i \<longrightarrow> \<not> is_close_marker (ls ! m)"
    unfolding in_block_iff by blast
  then have "\<not> is_close_marker (ls ! i)" by simp
  moreover from j have "j < i \<and> is_open_marker (ls ! j) \<and>
      (\<forall>m. j < m \<and> m < i \<longrightarrow> \<not> is_close_marker (ls ! m))" by auto
  then have "block_open ls i" unfolding block_open_iff by blast
  ultimately show "block_open ls i \<and> \<not> is_close_marker (ls ! i)" by simp
next
  assume a: "block_open ls i \<and> \<not> is_close_marker (ls ! i)"
  then obtain j where j: "j < i" "is_open_marker (ls ! j)"
    "\<forall>m. j < m \<and> m < i \<longrightarrow> \<not> is_close_marker (ls ! m)"
    unfolding block_open_iff by blast
  have "\<not> is_close_marker (ls ! m)" if "j < m \<and> m \<le> i" for m
    using that j(3) a by (cases "m = i") auto
  with j show "in_block ls i" unfolding in_block_iff by blast
qed

lemma block_open_0: "\<not> block_open ls 0"
  by (simp add: block_open_def)

lemma block_open_Suc:
  "block_open ls (Suc n) \<longleftrightarrow> is_open_marker (ls ! n) \<or> in_block ls n"
proof
  assume "block_open ls (Suc n)"
  then obtain j where j: "j < Suc n" "is_open_marker (ls ! j)"
    "\<forall>m. j < m \<and> m < Suc n \<longrightarrow> \<not> is_close_marker (ls ! m)"
    unfolding block_open_iff by blast
  show "is_open_marker (ls ! n) \<or> in_block ls n"
  proof (cases "j = n")
    case True
    with j show ?thesis by simp
  next
    case False
    with j have "j < n" "\<forall>m. j < m \<and> m \<le> n \<longrightarrow> \<not> is_close_marker (ls ! m)" by auto
    with j(2) have "in_block ls n" unfolding in_block_iff by blast
    then show ?thesis ..
  qed
next
  assume "is_open_marker (ls ! n) \<or> in_block ls n"
  then show "block_open ls (Suc n)"
  proof
    assume "is_open_marker (ls ! n)"
    then have "n < Suc n \<and> is_open_marker (ls ! n) \<and>
        (\<forall>m. n < m \<and> m < Suc n \<longrightarrow> \<not> is_close_marker (ls ! m))" by auto
    then show ?thesis unfolding block_open_iff by blast
  next
    assume "in_block ls n"
    then obtain j where j: "j < n" "is_open_marker (ls ! j)"
      "\<forall>m. j < m \<and> m \<le> n \<longrightarrow> \<not> is_close_marker (ls ! m)"
      unfolding in_block_iff by blast
    then have "j < Suc n \<and> is_open_marker (ls ! j) \<and>
        (\<forall>m. j < m \<and> m < Suc n \<longrightarrow> \<not> is_close_marker (ls ! m))" by auto
    then show ?thesis unfolding block_open_iff by blast
  qed
qed

lemma scan_lines_extract:
  "ls = pre @ rest \<Longrightarrow> \<not> list_ex (sublist not_found_marker) rest \<Longrightarrow>
     scan_lines key (block_open ls (length pre)) acc rest =
       Inr (acc @ concat (map (\<lambda>i. CHR 0x0A # ls ! i)
                            (filter (in_block ls) [length pre..<length ls])))"
proof (induction rest arbitrary: pre acc)
  case Nil
  then show ?case by simp
next
  case (Cons l rest)
  let ?n = "length pre"
  have l: "ls ! ?n = l" using Cons.prems(1) by simp
  have nm: "\<not> sublist not_found_marker l" "\<not> list_ex (sublist not_found_marker) rest"
    using Cons.prems(2) by simp_all
  have ls: "ls = (pre @ [l]) @ rest" using Cons.prems(1) by simp
  have b1: "(if strip l = ''</pre>'' then False else block_open ls ?n) = in_block ls ?n"
    by (simp add: in_block_flag l is_close_marker_def)
  have b2: "(if strip l = ''<pre>'' then True else in_block ls ?n) = block_open ls (Suc ?n)"
    by (simp add: block_open_Suc l is_open_marker_def)
  have "?n < length ls" using Cons.prems(1) by simp
  then have up: "[?n..<length ls] = ?n # [Suc ?n..<length ls]"
    by (rule upt_conv_Cons)
  have step: "scan_lines key (block_open ls ?n) acc (l # rest) =
      scan_lines key (block_open ls (Suc ?n))
        (if in_block ls ?n then acc @ [CHR 0x0A] @ l else acc) rest"
    using nm(1) by (simp add: Let_def b1 b2)
  show ?case
    unfolding step using Cons.IH [OF ls nm(2), of "if in_block ls ?n then acc @ [CHR 0x0A] @ l else acc"]
    by (simp add: up l)
qed

lemma parse_response_extract:
  assumes "status_code r = 200" "\<not> has_not_found_marker r"
  shows "parse_response key r = Inr (extracted in_block (split_nl (resp_text r)))"
  using assms scan_lines_extract [of "split_nl (resp_text r)" "[]" "split_nl (resp_text r)" key "[]"]
  by (simp add: parse_response_def has_not_found_marker_def block_open_0 correct_key_def
        extracted_def)

lemma extracted_no_marker:
  "\<not> list_ex is_open_marker ls \<Longrightarrow> extracted in_block ls = []"
proof -
  assume a: "\<not> list_ex is_open_marker ls"
  have "\<not> in_block ls i" if "i < length ls" for i
    using a that unfolding in_block_iff list_ex_iff by (metis less_trans nth_mem)
  then have "filter (in_block ls) [0..<length ls] = []"
    by (simp add: filter_empty_conv)
  then show ?thesis by (simp add: extracted_def)
qed

text \<open>
  Claim C7, as the code has it. For a response with status 200 whose body does not
  contain the not-found marker, the extracted text is the concatenation, each preceded
  by a line break, of exactly the lines that come after a \<open><pre>\<close> marker line with no
  \<open></pre>\<close> marker line since, up to the line itself: the lines of a block that is
  closed, and also those of a block left open to the end of the body. Without a
  \<open><pre>\<close> marker line the result is the empty string; no error is raised.
\<close>

theorem extracted_markup:
  assumes "status_code (srv log key) = 200" "\<not> sublist not_found_marker (resp_text (srv log key))"
  shows "snd (mr_request srv log key) =
       Inr (extracted in_block (split_nl (resp_text (srv log key)))) \<and>
     (\<not> list_ex is_open_marker (split_nl (resp_text (srv log key))) \<longrightarrow>
        snd (mr_request srv log key) = Inr [])"
  using parse_response_extract [of "srv log key" key] assms
    extracted_no_marker [of "split_nl (resp_text (srv log key))"]
  by (simp add: mr_request_def has_not_found_marker_iff)

theorem extracted_markup_witness:
  "status_code (example_server [] ''MR1996800'') = 200 \<and>
   \<not> sublist not_found_marker (resp_text (example_server [] ''MR1996800'')) \<and>
   snd (mr_request example_server [] ''MR1996800'') = Inr ''\<newline>@article {MR1996800,\<newline>}'' \<and>
   extracted in_block (split_nl (resp_text (example_server [] ''MR1996800''))) =
     ''\<newline>@article {MR1996800,\<newline>}''"
proof -
  have s: "status_code (example_server [] ''MR1996800'') = 200" by code_simp
  have h: "\<not> sublist not_found_marker (resp_text (example_server [] ''MR1996800''))" by code_simp
  have e: "extracted in_block (split_nl (resp_text (example_server [] ''MR1996800''))) =
     ''\<newline>@article {MR1996800,\<newline>}''" by code_simp
  from extracted_markup [of example_server "[]" "''MR1996800''", OF s h] s h e
  show ?thesis by simp
qed

text \<open>
  A body whose block is not closed: the code extracts the line after the \<open><pre>\<close>
  marker, and no line lies between a \<open><pre>\<close> and a \<open></pre>\<close> marker line.
\<close>

theorem unclosed_block_counterexample:
  "snd (mr_request unclosed_server [] ''MR1996800'') = Inr ''\<newline>@book {MR1996800}'' \<and>
   \<not> sublist not_found_marker (resp_text (unclosed_server [] ''MR1996800'')) \<and>
   extracted between_markers (split_nl (resp_text (unclosed_server [] ''MR1996800''))) = []"
  by code_simp

end
